theory Spec2Isabelle
  imports Complex_Main "HOL-Library.Multiset"
begin

section \<open>Metrics collection of the serving engine (python/sglang/srt/metrics/collector.py)\<close>

text \<open>
  The collectors translate domain events into updates of Prometheus primitives (counters,
  gauges, histograms). The primitives themselves belong to the \<^verbatim>\<open>prometheus_client\<close>
  library, which the collectors import; the collector code reads and writes the fields
  \<^verbatim>\<open>_sum\<close>, \<^verbatim>\<open>_upper_bounds\<close> and \<^verbatim>\<open>_buckets\<close> of a histogram directly.

  Conventions of the embedding:
  \<^item> a Python \<^verbatim>\<open>float\<close> is a \<^typ>\<open>real\<close> (exact arithmetic; rounding, NaN and overflow
    of IEEE doubles are outside the model), a Python \<^verbatim>\<open>int\<close> is an \<^typ>\<open>int\<close>;
  \<^item> mutation is explicit state passing; a call that raises returns the state reached
    at the moment of the raise, so that partial updates stay visible;
  \<^item> \<^verbatim>\<open>time.time()\<close> is an input of the call that reads the clock.
\<close>

subsection \<open>Outcomes of a call\<close>

datatype error = ZeroDivisionError | InvalidObservation | IndexError

datatype 's outcome = Returns 's | Raises error 's

fun state_of :: "'s outcome \<Rightarrow> 's" where
  "state_of (Returns s) = s"
| "state_of (Raises e s) = s"

fun raised :: "'s outcome \<Rightarrow> error option" where
  "raised (Returns s) = None"
| "raised (Raises e s) = Some e"

subsection \<open>Labels\<close>

text \<open>
  \<^verbatim>\<open>labels: Dict[str, str]\<close>, in insertion order. Every primitive is declared with
  \<^verbatim>\<open>labelnames=labels.keys()\<close> and every update goes through
  \<^verbatim>\<open>.labels(**self.labels)\<close>, which selects the accumulator of the tuple of label
  values. A primitive is a family of accumulators indexed by that tuple; a tuple never
  used holds the initial accumulator (the library creates it on first use).
\<close>

type_synonym labels = "(string \<times> string) list"

definition label_values :: "labels \<Rightarrow> string list" where
  "label_values ls = map snd ls"

subsection \<open>Counter and Gauge\<close>

type_synonym counter = "string list \<Rightarrow> real"

type_synonym gauge = "string list \<Rightarrow> real"

definition Counter :: counter where
  "Counter = (\<lambda>key. 0)"

definition Gauge :: gauge where
  "Gauge = (\<lambda>key. 0)"

text \<open>
  Modelled from the spec: \<^verbatim>\<open>Counter.inc\<close> of the metrics library, which is not part of
  the repository's sources. Section 4.1: a Counter adds the value, "value \<ge> 0 required,
  else fails with InvalidObservation"; a failed call does not alter the accumulator.
\<close>

definition counter_inc :: "counter \<Rightarrow> string list \<Rightarrow> real \<Rightarrow> counter outcome" where
  "counter_inc cnt key amount =
     (if amount < 0 then Raises InvalidObservation cnt
      else Returns (cnt(key := cnt key + amount)))"

text \<open>
  Modelled from the spec: \<^verbatim>\<open>Gauge.set\<close> of the metrics library. Section 4.1: "set for
  Gauge (overwrites, any finite numeric value)".
\<close>

definition gauge_set :: "gauge \<Rightarrow> string list \<Rightarrow> real \<Rightarrow> gauge" where
  "gauge_set g key v = g(key := v)"

subsection \<open>Histogram\<close>

text \<open>
  An upper bound is a float, possibly \<^verbatim>\<open>+Inf\<close>. The accumulator of one label tuple has
  the three fields the collector touches: \<^verbatim>\<open>_sum\<close>, \<^verbatim>\<open>_upper_bounds\<close> and
  \<^verbatim>\<open>_buckets\<close> (one counter per bound; each counter holds the samples that fell into
  that bucket and no earlier one).
\<close>

datatype bound = Fin real | PInf

fun le_bound :: "real \<Rightarrow> bound \<Rightarrow> bool" where
  "le_bound v (Fin b) = (v \<le> b)"
| "le_bound v PInf = True"

record hist_child =
  his_sum :: real
  upper_bounds :: "bound list"
  buckets :: "real list"

type_synonym histogram = "string list \<Rightarrow> hist_child"

text \<open>
  Modelled from the spec: the \<^verbatim>\<open>Histogram\<close> constructor of the metrics library. Section 3:
  the bucket upper bounds are the ascending ladder given at creation, followed by the
  final bucket \<^verbatim>\<open>+infinity\<close>; there is one counter per bucket and a running sum, all
  zero at creation. Section 7: a ladder that is unsorted or empty is rejected at
  construction (\<open>ladder_ok\<close>).
\<close>

definition ladder_ok :: "real list \<Rightarrow> bool" where
  "ladder_ok ladder = (ladder \<noteq> [] \<and> sorted ladder)"

definition new_child :: "real list \<Rightarrow> hist_child" where
  "new_child ladder =
     \<lparr>his_sum = 0,
      upper_bounds = map Fin ladder @ [PInf],
      buckets = replicate (Suc (length ladder)) 0\<rparr>"

definition Histogram :: "real list \<Rightarrow> histogram" where
  "Histogram ladder = (\<lambda>key. new_child ladder)"

text \<open>
  The scan shared by both observation paths:
  \<^verbatim>\<open>
  for i, bound in enumerate(his._upper_bounds):
      if adjusted_interval <= bound:
          his._buckets[i].inc(num_new_tokens)
          break
  \<close>
  \<open>i\<close> is the index of the head of the bounds still to visit. Reading
  \<^verbatim>\<open>_buckets[i]\<close> beyond the end of the list raises \<^verbatim>\<open>IndexError\<close>: the result
  \<open>None\<close>.
\<close>

fun bucket_scan :: "real \<Rightarrow> real \<Rightarrow> nat \<Rightarrow> bound list \<Rightarrow> real list \<Rightarrow> real list option" where
  "bucket_scan v n i [] bs = Some bs"
| "bucket_scan v n i (b # rest) bs =
     (if le_bound v b
      then (if i < length bs then Some (bs[i := bs ! i + n]) else None)
      else bucket_scan v n (Suc i) rest bs)"

text \<open>
  Lines 352 to 357 of \<^verbatim>\<open>observe_inter_token_latency\<close>, on the accumulator \<open>his\<close>:
  the raw interval goes to the sum, then the scan adds \<open>n\<close> to the first bucket whose
  bound is at least the adjusted interval.
\<close>

definition observe_batch :: "hist_child \<Rightarrow> real \<Rightarrow> real \<Rightarrow> real \<Rightarrow> hist_child outcome" where
  "observe_batch his internval adjusted_interval n =
     (let his1 = his\<lparr>his_sum := his_sum his + internval\<rparr> in
      case bucket_scan adjusted_interval n 0 (upper_bounds his1) (buckets his1) of
        None \<Rightarrow> Raises IndexError his1
      | Some bs \<Rightarrow> Returns (his1\<lparr>buckets := bs\<rparr>))"

text \<open>
  Modelled from the spec: \<^verbatim>\<open>Histogram.observe\<close> of the metrics library, the generic
  single-sample observation (Section 4.1, "records one sample"; Section 4.3 and the
  comment at line 349 describe the batched path as a faster version of it): the value
  goes to the sum and the first bucket whose bound is at least the value gains 1.
\<close>

definition observe :: "hist_child \<Rightarrow> real \<Rightarrow> hist_child outcome" where
  "observe his amount =
     (let his1 = his\<lparr>his_sum := his_sum his + amount\<rparr> in
      case bucket_scan amount 1 0 (upper_bounds his1) (buckets his1) of
        None \<Rightarrow> Raises IndexError his1
      | Some bs \<Rightarrow> Returns (his1\<lparr>buckets := bs\<rparr>))"

text \<open>The sample count a histogram exports is the total of its bucket counters.\<close>

definition hist_count :: "hist_child \<Rightarrow> real" where
  "hist_count his = sum_list (buckets his)"

definition finite_buckets :: "hist_child \<Rightarrow> real list" where
  "finite_buckets his = butlast (buckets his)"

definition overflow_bucket :: "hist_child \<Rightarrow> real" where
  "overflow_bucket his = last (buckets his)"

text \<open>
  Well-formed accumulators: one counter per bound (\<open>wf_child\<close>), and a last bound
  \<^verbatim>\<open>+Inf\<close> (\<open>has_overflow\<close>). The constructor establishes both.
\<close>

definition wf_child :: "hist_child \<Rightarrow> bool" where
  "wf_child his = (length (buckets his) = length (upper_bounds his))"

definition has_overflow :: "hist_child \<Rightarrow> bool" where
  "has_overflow his = (upper_bounds his \<noteq> [] \<and> last (upper_bounds his) = PInf)"

subsection \<open>Declarations of primitives\<close>

text \<open>
  Each constructor declares its primitives with \<^verbatim>\<open>labelnames=labels.keys()\<close>. A
  declaration is recorded with its \<^verbatim>\<open>name\<close>, its \<^verbatim>\<open>documentation\<close> and, for a
  histogram, the \<^verbatim>\<open>buckets=[...]\<close> ladder; for a gauge, its \<^verbatim>\<open>multiprocess_mode\<close>.
\<close>

datatype metric_decl =
    CounterDecl string string
  | GaugeDecl string string string
  | HistogramDecl string string "real list"

fun metric_name :: "metric_decl \<Rightarrow> string" where
  "metric_name (CounterDecl name doc) = name"
| "metric_name (GaugeDecl name doc mode) = name"
| "metric_name (HistogramDecl name doc ladder) = name"

fun is_counter :: "metric_decl \<Rightarrow> bool" where
  "is_counter (CounterDecl name doc) = True"
| "is_counter d = False"

fun is_gauge :: "metric_decl \<Rightarrow> bool" where
  "is_gauge (GaugeDecl name doc mode) = True"
| "is_gauge d = False"

fun is_histogram :: "metric_decl \<Rightarrow> bool" where
  "is_histogram (HistogramDecl name doc ladder) = True"
| "is_histogram d = False"

fun ladder_of :: "metric_decl \<Rightarrow> real list" where
  "ladder_of (HistogramDecl name doc ladder) = ladder"
| "ladder_of d = []"

fun mode_of :: "metric_decl \<Rightarrow> string" where
  "mode_of (GaugeDecl name doc mode) = mode"
| "mode_of d = []"

subsection \<open>Sequencing of statements that may raise\<close>

fun and_then :: "'s outcome \<Rightarrow> ('s \<Rightarrow> 's outcome) \<Rightarrow> 's outcome" where
  "and_then (Returns s) f = f s"
| "and_then (Raises e s) f = Raises e s"

subsection \<open>SchedulerStats and SchedulerMetricsCollector\<close>

record SchedulerStats =
  num_running_reqs :: int
  num_used_tokens :: int
  token_usage :: real
  gen_throughput :: real
  num_queue_reqs :: int
  cache_hit_rate :: real
  spec_accept_length :: real

text \<open>
  The collector's fields carry the names of the source; where a gauge shares its name
  with a field of \<open>SchedulerStats\<close>, the two are told apart by the record's name.
\<close>

record SchedulerMetricsCollector =
  labels :: labels
  last_log_time :: real
  num_running_reqs :: gauge
  num_used_tokens :: gauge
  token_usage :: gauge
  gen_throughput :: gauge
  num_queue_reqs :: gauge
  cache_hit_rate :: gauge
  spec_accept_length :: gauge
  histogram_request_queue_latency :: histogram

definition buckets_request_queue_latency :: "real list" where
  "buckets_request_queue_latency =
     [0.001, 0.002, 0.005, 0.010, 0.020, 0.050, 0.100, 0.200, 0.500, 1.000, 2.000,
      5.000, 10.000, 20.000, 30.000, 60.000]"

definition SchedulerMetricsCollector_declarations :: "metric_decl list" where
  "SchedulerMetricsCollector_declarations =
     [GaugeDecl ''sglang:num_running_reqs'' ''The number of running requests.''
        ''mostrecent'',
      GaugeDecl ''sglang:num_used_tokens'' ''The number of used tokens.'' ''mostrecent'',
      GaugeDecl ''sglang:token_usage'' ''The token usage.'' ''mostrecent'',
      GaugeDecl ''sglang:gen_throughput'' ''The generation throughput (token/s).''
        ''mostrecent'',
      GaugeDecl ''sglang:num_queue_reqs''
        ''The number of requests in the waiting queue.'' ''mostrecent'',
      GaugeDecl ''sglang:cache_hit_rate'' ''The prefix cache hit rate.'' ''mostrecent'',
      GaugeDecl ''sglang:spec_accept_length''
        ''The average acceptance length of speculative decoding.'' ''mostrecent'',
      HistogramDecl ''sglang:request_queue_latency_seconds''
        ''Histogram of time requests spend in queue before processing''
        buckets_request_queue_latency]"

text \<open>\<open>now\<close> is the value of \<^verbatim>\<open>time.time()\<close> at construction.\<close>

definition SchedulerMetricsCollector_init :: "labels \<Rightarrow> real \<Rightarrow> SchedulerMetricsCollector" where
  "SchedulerMetricsCollector_init ls now =
     \<lparr>labels = ls,
      last_log_time = now,
      num_running_reqs = Gauge,
      num_used_tokens = Gauge,
      token_usage = Gauge,
      gen_throughput = Gauge,
      num_queue_reqs = Gauge,
      cache_hit_rate = Gauge,
      spec_accept_length = Gauge,
      histogram_request_queue_latency = Histogram buckets_request_queue_latency\<rparr>"

text \<open>
  \<^verbatim>\<open>_log_gauge(self, gauge, data)\<close>: \<^verbatim>\<open>gauge.labels(**self.labels).set(data)\<close>; the
  labels of \<open>self\<close> are the first argument.
\<close>

definition log_gauge :: "labels \<Rightarrow> gauge \<Rightarrow> real \<Rightarrow> gauge" where
  "log_gauge ls gauge data = gauge_set gauge (label_values ls) data"

text \<open>
  \<^verbatim>\<open>log_stats(self, stats)\<close>: seven calls of \<^verbatim>\<open>_log_gauge\<close>, then
  \<^verbatim>\<open>self.last_log_time = time.time()\<close>; \<open>now\<close> is the clock's value at that line.
\<close>

definition log_stats ::
  "SchedulerMetricsCollector \<Rightarrow> SchedulerStats \<Rightarrow> real \<Rightarrow> SchedulerMetricsCollector" where
  "log_stats c stats now =
     c\<lparr>num_running_reqs :=
         log_gauge (labels c) (num_running_reqs c)
           (real_of_int (SchedulerStats.num_running_reqs stats)),
       num_used_tokens :=
         log_gauge (labels c) (num_used_tokens c)
           (real_of_int (SchedulerStats.num_used_tokens stats)),
       token_usage :=
         log_gauge (labels c) (token_usage c) (SchedulerStats.token_usage stats),
       gen_throughput :=
         log_gauge (labels c) (gen_throughput c) (SchedulerStats.gen_throughput stats),
       num_queue_reqs :=
         log_gauge (labels c) (num_queue_reqs c)
           (real_of_int (SchedulerStats.num_queue_reqs stats)),
       cache_hit_rate :=
         log_gauge (labels c) (cache_hit_rate c) (SchedulerStats.cache_hit_rate stats),
       spec_accept_length :=
         log_gauge (labels c) (spec_accept_length c)
           (SchedulerStats.spec_accept_length stats),
       last_log_time := now\<rparr>"

text \<open>
  \<^verbatim>\<open>histogram.labels(**self.labels).observe(data)\<close>, the body of
  \<^verbatim>\<open>_log_histogram\<close> and of every single-sample observer of both collectors.
\<close>

definition log_histogram :: "labels \<Rightarrow> histogram \<Rightarrow> real \<Rightarrow> histogram outcome" where
  "log_histogram ls histogram data =
     map_outcome (\<lambda>his. histogram(label_values ls := his))
       (observe (histogram (label_values ls)) data)"

definition observe_request_queue_latency ::
  "SchedulerMetricsCollector \<Rightarrow> real \<Rightarrow> SchedulerMetricsCollector outcome" where
  "observe_request_queue_latency c latency =
     map_outcome (\<lambda>h. c\<lparr>histogram_request_queue_latency := h\<rparr>)
       (log_histogram (labels c) (histogram_request_queue_latency c) latency)"

subsection \<open>TokenizerMetricsCollector\<close>

record TokenizerMetricsCollector =
  labels :: labels
  prompt_tokens_total :: counter
  generation_tokens_total :: counter
  cached_tokens_total :: counter
  num_requests_total :: counter
  histogram_time_to_first_token :: histogram
  histogram_time_per_output_token :: histogram
  histogram_inter_token_latency_seconds :: histogram
  histogram_e2e_request_latency :: histogram
  histogram_tokenization_latency :: histogram
  histogram_detokenization_latency :: histogram

definition buckets_time_to_first_token :: "real list" where
  "buckets_time_to_first_token =
     [0.1, 0.3, 0.5, 0.7, 0.9, 1, 2, 4, 6, 8, 10, 20, 40, 60, 80, 120, 160]"

definition buckets_time_per_output_token :: "real list" where
  "buckets_time_per_output_token =
     [0.002, 0.005, 0.010, 0.020, 0.030, 0.040, 0.050, 0.060, 0.070, 0.080, 0.090,
      0.100, 0.150, 0.200, 0.300, 0.400, 0.600, 0.800, 1.000, 2.000]"

definition buckets_inter_token_latency :: "real list" where
  "buckets_inter_token_latency =
     [0.002, 0.004, 0.006, 0.008, 0.010, 0.015, 0.020, 0.025, 0.030, 0.035, 0.040,
      0.050, 0.075, 0.100, 0.150, 0.200, 0.300, 0.400, 0.500, 0.750, 1.000, 2.000]"

definition buckets_e2e_request_latency :: "real list" where
  "buckets_e2e_request_latency =
     [0.1, 0.2, 0.4, 0.8, 1, 2, 5, 10, 20, 40, 60, 80, 100, 150, 200, 250, 300, 350,
      500, 1000]"

definition buckets_tokenization_latency :: "real list" where
  "buckets_tokenization_latency =
     [0.001, 0.002, 0.005, 0.010, 0.020, 0.030, 0.040, 0.050, 0.075, 0.100, 0.150,
      0.200, 0.300, 0.400, 0.500, 1.000]"

definition buckets_detokenization_latency :: "real list" where
  "buckets_detokenization_latency =
     [0.001, 0.002, 0.005, 0.010, 0.020, 0.030, 0.040, 0.050, 0.075, 0.100, 0.150,
      0.200, 0.300, 0.400, 0.500, 1.000]"

definition TokenizerMetricsCollector_declarations :: "metric_decl list" where
  "TokenizerMetricsCollector_declarations =
     [CounterDecl ''sglang:prompt_tokens_total'' ''Number of prefill tokens processed.'',
      CounterDecl ''sglang:generation_tokens_total''
        ''Number of generation tokens processed.'',
      CounterDecl ''sglang:cached_tokens_total'' ''Number of cached prompt tokens.'',
      CounterDecl ''sglang:num_requests_total'' ''Number of requests processed.'',
      HistogramDecl ''sglang:time_to_first_token_seconds''
        ''Histogram of time to first token in seconds.'' buckets_time_to_first_token,
      HistogramDecl ''sglang:time_per_output_token_seconds''
        ''Histogram of time per output token in seconds.'' buckets_time_per_output_token,
      HistogramDecl ''sglang:inter_token_latency_seconds''
        ''Histogram of inter-token latency in seconds.'' buckets_inter_token_latency,
      HistogramDecl ''sglang:e2e_request_latency_seconds''
        ''Histogram of End-to-end request latency in seconds''
        buckets_e2e_request_latency,
      HistogramDecl ''sglang:tokenization_latency_seconds''
        ''Histogram of tokenization latency in seconds'' buckets_tokenization_latency,
      HistogramDecl ''sglang:detokenization_latency_seconds''
        ''Histogram of detokenization latency in seconds''
        buckets_detokenization_latency]"

definition TokenizerMetricsCollector_init :: "labels \<Rightarrow> TokenizerMetricsCollector" where
  "TokenizerMetricsCollector_init ls =
     \<lparr>labels = ls,
      prompt_tokens_total = Counter,
      generation_tokens_total = Counter,
      cached_tokens_total = Counter,
      num_requests_total = Counter,
      histogram_time_to_first_token = Histogram buckets_time_to_first_token,
      histogram_time_per_output_token = Histogram buckets_time_per_output_token,
      histogram_inter_token_latency_seconds = Histogram buckets_inter_token_latency,
      histogram_e2e_request_latency = Histogram buckets_e2e_request_latency,
      histogram_tokenization_latency = Histogram buckets_tokenization_latency,
      histogram_detokenization_latency = Histogram buckets_detokenization_latency\<rparr>"

text \<open>
  \<^verbatim>\<open>
  def observe_one_finished_request(self, prompt_tokens, generation_tokens,
                                   cached_tokens, e2e_latency):
      self.prompt_tokens_total.labels(**self.labels).inc(prompt_tokens)
      self.generation_tokens_total.labels(**self.labels).inc(generation_tokens)
      self.cached_tokens_total.labels(**self.labels).inc(cached_tokens)
      self.num_requests_total.labels(**self.labels).inc(1)
      self._log_histogram(self.histogram_e2e_request_latency, e2e_latency)
      if generation_tokens >= 1:
          self.histogram_time_per_output_token.labels(**self.labels).observe(
              e2e_latency / generation_tokens)
  \<close>
  There is no handler: a statement that raises ends the call, and the statements
  before it have taken effect.
\<close>

definition observe_one_finished_request ::
  "TokenizerMetricsCollector \<Rightarrow> int \<Rightarrow> int \<Rightarrow> int \<Rightarrow> real \<Rightarrow> TokenizerMetricsCollector outcome" where
  "observe_one_finished_request c prompt_tokens generation_tokens cached_tokens e2e_latency =
     and_then
       (map_outcome (\<lambda>v. c\<lparr>prompt_tokens_total := v\<rparr>)
          (counter_inc (prompt_tokens_total c) (label_values (labels c))
             (real_of_int prompt_tokens)))
     (\<lambda>c. and_then
       (map_outcome (\<lambda>v. c\<lparr>generation_tokens_total := v\<rparr>)
          (counter_inc (generation_tokens_total c) (label_values (labels c))
             (real_of_int generation_tokens)))
     (\<lambda>c. and_then
       (map_outcome (\<lambda>v. c\<lparr>cached_tokens_total := v\<rparr>)
          (counter_inc (cached_tokens_total c) (label_values (labels c))
             (real_of_int cached_tokens)))
     (\<lambda>c. and_then
       (map_outcome (\<lambda>v. c\<lparr>num_requests_total := v\<rparr>)
          (counter_inc (num_requests_total c) (label_values (labels c)) 1))
     (\<lambda>c. and_then
       (map_outcome (\<lambda>h. c\<lparr>histogram_e2e_request_latency := h\<rparr>)
          (log_histogram (labels c) (histogram_e2e_request_latency c) e2e_latency))
     (\<lambda>c. if 1 \<le> generation_tokens
          then map_outcome (\<lambda>h. c\<lparr>histogram_time_per_output_token := h\<rparr>)
                 (log_histogram (labels c) (histogram_time_per_output_token c)
                    (e2e_latency / real_of_int generation_tokens))
          else Returns c)))))"

definition observe_time_to_first_token ::
  "TokenizerMetricsCollector \<Rightarrow> real \<Rightarrow> TokenizerMetricsCollector outcome" where
  "observe_time_to_first_token c v =
     map_outcome (\<lambda>h. c\<lparr>histogram_time_to_first_token := h\<rparr>)
       (log_histogram (labels c) (histogram_time_to_first_token c) v)"

definition observe_tokenization_latency ::
  "TokenizerMetricsCollector \<Rightarrow> real \<Rightarrow> TokenizerMetricsCollector outcome" where
  "observe_tokenization_latency c latency =
     map_outcome (\<lambda>h. c\<lparr>histogram_tokenization_latency := h\<rparr>)
       (log_histogram (labels c) (histogram_tokenization_latency c) latency)"

definition observe_detokenization_latency ::
  "TokenizerMetricsCollector \<Rightarrow> real \<Rightarrow> TokenizerMetricsCollector outcome" where
  "observe_detokenization_latency c latency =
     map_outcome (\<lambda>h. c\<lparr>histogram_detokenization_latency := h\<rparr>)
       (log_histogram (labels c) (histogram_detokenization_latency c) latency)"

text \<open>
  \<^verbatim>\<open>
  def observe_inter_token_latency(self, internval: float, num_new_tokens: int):
      adjusted_interval = internval / num_new_tokens
      his = self.histogram_inter_token_latency_seconds.labels(**self.labels)
      his._sum.inc(internval)
      for i, bound in enumerate(his._upper_bounds): ...
  \<close>
  The division comes first and raises \<^verbatim>\<open>ZeroDivisionError\<close> on a zero divisor.
\<close>

definition set_inter_token ::
  "TokenizerMetricsCollector \<Rightarrow> hist_child \<Rightarrow> TokenizerMetricsCollector" where
  "set_inter_token c his =
     c\<lparr>histogram_inter_token_latency_seconds :=
         (histogram_inter_token_latency_seconds c)(label_values (labels c) := his)\<rparr>"

definition inter_token_his :: "TokenizerMetricsCollector \<Rightarrow> hist_child" where
  "inter_token_his c = histogram_inter_token_latency_seconds c (label_values (labels c))"

definition observe_inter_token_latency ::
  "TokenizerMetricsCollector \<Rightarrow> real \<Rightarrow> int \<Rightarrow> TokenizerMetricsCollector outcome" where
  "observe_inter_token_latency c internval num_new_tokens =
     (if num_new_tokens = 0 then Raises ZeroDivisionError c
      else
        let adjusted_interval = internval / real_of_int num_new_tokens;
            his = inter_token_his c
        in case observe_batch his internval adjusted_interval (real_of_int num_new_tokens) of
             Returns his' \<Rightarrow> Returns (set_inter_token c his')
           | Raises e his' \<Rightarrow> Raises e (set_inter_token c his'))"


subsection \<open>Sequences of observations on one histogram\<close>

text \<open>
  The batched path on the accumulator alone: the division, then lines 352 to 357.
  \<open>observe_inter_token_latency\<close> is this function applied to the accumulator of the
  collector's label tuple (lemma \<open>observe_inter_token_latency_his\<close>).
\<close>

definition batched_his :: "hist_child \<Rightarrow> real \<Rightarrow> int \<Rightarrow> hist_child outcome" where
  "batched_his his internval num_new_tokens =
     (if num_new_tokens = 0 then Raises ZeroDivisionError his
      else observe_batch his internval (internval / real_of_int num_new_tokens)
             (real_of_int num_new_tokens))"







text \<open>
  The comparison of Section 8: \<open>k\<close> individual single-sample observations of the same
  value, one after the other, and the collector after \<open>num_new_tokens\<close> such
  observations of the adjusted interval on its inter-token-latency histogram.
\<close>

fun repeat_observe :: "nat \<Rightarrow> hist_child \<Rightarrow> real \<Rightarrow> hist_child outcome" where
  "repeat_observe 0 his v = Returns his"
| "repeat_observe (Suc k) his v = and_then (observe his v) (\<lambda>his'. repeat_observe k his' v)"

definition individual_observations ::
  "TokenizerMetricsCollector \<Rightarrow> real \<Rightarrow> int \<Rightarrow> TokenizerMetricsCollector outcome" where
  "individual_observations c internval num_new_tokens =
     map_outcome (set_inter_token c)
       (repeat_observe (nat num_new_tokens) (inter_token_his c)
          (internval / real_of_int num_new_tokens))"

text \<open>
  The position of the first bound that is at least \<open>v\<close>; the length of the list when
  there is none.
\<close>

definition first_match :: "real \<Rightarrow> bound list \<Rightarrow> nat" where
  "first_match v bounds = length (takeWhile (\<lambda>b. \<not> le_bound v b) bounds)"

text \<open>
  The single-sample observation in the words of the spec, written without the scan of
  the code: the value is added to the running sum, and the bucket with the smallest
  index whose upper bound is at least the value gains one sample; no bucket gains
  anything when there is no such bound. \<open>spec_individual_observations\<close> is
  \<open>num_new_tokens\<close> such observations of the adjusted interval, one after the other.
\<close>

definition spec_bucket_index :: "real \<Rightarrow> bound list \<Rightarrow> nat option" where
  "spec_bucket_index v bounds =
     List.find (\<lambda>i. le_bound v (bounds ! i)) [0..<length bounds]"

definition spec_observe :: "hist_child \<Rightarrow> real \<Rightarrow> hist_child" where
  "spec_observe his v =
     (case spec_bucket_index v (upper_bounds his) of
        None \<Rightarrow> his\<lparr>his_sum := his_sum his + v\<rparr>
      | Some i \<Rightarrow> his\<lparr>his_sum := his_sum his + v,
                      buckets := (buckets his)[i := buckets his ! i + 1]\<rparr>)"

definition spec_individual_observations :: "hist_child \<Rightarrow> real \<Rightarrow> int \<Rightarrow> hist_child" where
  "spec_individual_observations his internval num_new_tokens =
     ((\<lambda>h. spec_observe h (internval / real_of_int num_new_tokens)) ^^ nat num_new_tokens) his"

subsection \<open>Multiprocess merge of a gauge\<close>

text \<open>
  Modelled from the spec: the multiprocess aggregator of the metrics library, which is
  not part of the repository's sources; the collector only selects the policy with
  \<^verbatim>\<open>multiprocess_mode="mostrecent"\<close>. Sections 3 and 5: every process holds its local
  copy of a gauge; under "most-recent" the externally visible value is the value last
  written by whichever process wrote last in wall-clock order, and the merge tracks a
  per-process last-write timestamp. A process-local copy is the pair of the time of
  its last write and the value written; the copies are merged in the order in which
  they are read, a later timestamp replacing the current candidate.
\<close>

type_synonym gauge_copy = "real \<times> real"

fun merge_mostrecent :: "gauge_copy option \<Rightarrow> gauge_copy list \<Rightarrow> gauge_copy option" where
  "merge_mostrecent cur [] = cur"
| "merge_mostrecent cur (p # rest) =
     merge_mostrecent
       (case cur of
          None \<Rightarrow> Some p
        | Some q \<Rightarrow> if fst q < fst p then Some p else Some q)
       rest"

definition merged_read :: "gauge_copy list \<Rightarrow> real option" where
  "merged_read copies = map_option snd (merge_mostrecent None copies)"

subsection \<open>Concrete collectors\<close>

definition demo_labels :: labels where
  "demo_labels = [(''model_name'', ''demo'')]"

definition demo_tokenizer :: TokenizerMetricsCollector where
  "demo_tokenizer = TokenizerMetricsCollector_init demo_labels"

text \<open>
  The collector of the end-to-end scenario of Section 8: its inter-token-latency
  histogram has the buckets 0.1, 0.5 and 1.0.
\<close>

definition scenario_tokenizer :: TokenizerMetricsCollector where
  "scenario_tokenizer =
     demo_tokenizer\<lparr>histogram_inter_token_latency_seconds := Histogram [0.1, 0.5, 1.0]\<rparr>"

definition scenario_after_first :: TokenizerMetricsCollector where
  "scenario_after_first = state_of (observe_inter_token_latency scenario_tokenizer 0.3 3)"

definition scenario_after_second :: TokenizerMetricsCollector where
  "scenario_after_second = state_of (observe_inter_token_latency scenario_after_first 1.5 1)"

definition demo_scheduler :: SchedulerMetricsCollector where
  "demo_scheduler = SchedulerMetricsCollector_init demo_labels 100"

definition demo_stats :: SchedulerStats where
  "demo_stats =
     \<lparr>SchedulerStats.num_running_reqs = 4,
      SchedulerStats.num_used_tokens = 2048,
      SchedulerStats.token_usage = 0.25,
      SchedulerStats.gen_throughput = 130.5,
      SchedulerStats.num_queue_reqs = 7,
      SchedulerStats.cache_hit_rate = 0.5,
      SchedulerStats.spec_accept_length = 2.5\<rparr>"

section \<open>Properties of the scan\<close>

lemma bucket_scan_eq:
  "i + length bounds \<le> length bs \<Longrightarrow>
   bucket_scan v n i bounds bs =
     Some (if first_match v bounds < length bounds
           then bs[i + first_match v bounds := bs ! (i + first_match v bounds) + n] else bs)"
proof (induction bounds arbitrary: i)
  case Nil
  then show ?case by (simp add: first_match_def)
next
  case (Cons b rest)
  show ?case
  proof (cases "le_bound v b")
    case True
    with Cons.prems show ?thesis by (simp add: first_match_def)
  next
    case False
    from Cons.prems have "Suc i + length rest \<le> length bs" by simp
    from Cons.IH [OF this] False show ?thesis by (simp add: first_match_def)
  qed
qed

lemma first_match_iff:
  assumes i: "i < length bounds"
  shows "(first_match v bounds = i) =
   (le_bound v (bounds ! i) \<and> (\<forall>j<i. \<not> le_bound v (bounds ! j)))"
proof
  assume k: "first_match v bounds = i"
  have "le_bound v (bounds ! i)"
    using nth_length_takeWhile [of "\<lambda>b. \<not> le_bound v b" bounds] i k
    by (simp add: first_match_def)
  moreover have "\<not> le_bound v (bounds ! j)" if "j < i" for j
  proof -
    from that k have j: "j < length (takeWhile (\<lambda>b. \<not> le_bound v b) bounds)"
      by (simp add: first_match_def)
    then have "takeWhile (\<lambda>b. \<not> le_bound v b) bounds ! j
        \<in> set (takeWhile (\<lambda>b. \<not> le_bound v b) bounds)"
      by (rule nth_mem)
    then have "\<not> le_bound v (takeWhile (\<lambda>b. \<not> le_bound v b) bounds ! j)"
      by (rule set_takeWhileD [THEN conjunct2])
    with takeWhile_nth [OF j] show ?thesis by simp
  qed
  ultimately show "le_bound v (bounds ! i) \<and> (\<forall>j<i. \<not> le_bound v (bounds ! j))"
    by simp
next
  assume h: "le_bound v (bounds ! i) \<and> (\<forall>j<i. \<not> le_bound v (bounds ! j))"
  then have "takeWhile (\<lambda>b. \<not> le_bound v b) bounds = take i bounds"
    by (intro takeWhile_eq_take_P_nth) simp_all
  with i show "first_match v bounds = i" by (simp add: first_match_def)
qed

lemma observe_batch_wf:
  assumes "wf_child his"
  shows "observe_batch his x a n =
     Returns (his\<lparr>his_sum := his_sum his + x,
                  buckets := (if first_match a (upper_bounds his) < length (upper_bounds his)
                              then (buckets his)[first_match a (upper_bounds his) :=
                                     buckets his ! first_match a (upper_bounds his) + n]
                              else buckets his)\<rparr>)"
  using assms bucket_scan_eq [of 0 "upper_bounds his" "buckets his" a n]
  by (simp add: observe_batch_def wf_child_def Let_def)

lemma inter_token_his_set [simp]: "inter_token_his (set_inter_token c his) = his"
  by (simp add: inter_token_his_def set_inter_token_def)

lemma set_inter_token_same [simp]: "set_inter_token c (inter_token_his c) = c"
  by (simp add: inter_token_his_def set_inter_token_def)

lemma wf_new_child [simp]: "wf_child (new_child ladder)"
  by (simp add: wf_child_def new_child_def)

lemma has_overflow_new_child [simp]: "has_overflow (new_child ladder)"
  by (simp add: has_overflow_def new_child_def)

lemma inter_token_his_init [simp]:
  "inter_token_his (TokenizerMetricsCollector_init ls) = new_child buckets_inter_token_latency"
  by (simp add: inter_token_his_def TokenizerMetricsCollector_init_def Histogram_def)

lemma observe_inter_token_latency_his:
  "observe_inter_token_latency c x n =
     map_outcome (set_inter_token c) (batched_his (inter_token_his c) x n)"
  by (simp add: observe_inter_token_latency_def batched_his_def Let_def
      split: outcome.splits)

lemma sum_list_bump:
  "k < length xs \<Longrightarrow> sum_list (xs[k := xs ! k + n]) = sum_list xs + (n::real)"
proof (induction xs arbitrary: k)
  case Nil
  then show ?case by simp
next
  case (Cons a xs)
  then show ?case by (cases k) simp_all
qed



lemma first_match_all_exceed:
  "list_all (\<lambda>b. \<not> le_bound v b) xs \<Longrightarrow> le_bound v y \<Longrightarrow> first_match v (xs @ [y]) = length xs"
  by (induction xs) (simp_all add: first_match_def)

lemma observe_wf:
  assumes "wf_child his"
  shows "observe his v =
     Returns (his\<lparr>his_sum := his_sum his + v,
                  buckets := (if first_match v (upper_bounds his) < length (upper_bounds his)
                              then (buckets his)[first_match v (upper_bounds his) :=
                                     buckets his ! first_match v (upper_bounds his) + 1]
                              else buckets his)\<rparr>)"
  using assms bucket_scan_eq [of 0 "upper_bounds his" "buckets his" v 1]
  by (simp add: observe_def wf_child_def Let_def)








lemma repeat_observe_wf:
  assumes "wf_child his"
  shows "repeat_observe k his v =
     Returns (his\<lparr>his_sum := his_sum his + real k * v,
                  buckets := (if first_match v (upper_bounds his) < length (upper_bounds his)
                              then (buckets his)[first_match v (upper_bounds his) :=
                                     buckets his ! first_match v (upper_bounds his) + real k]
                              else buckets his)\<rparr>)"
  using assms
proof (induction k arbitrary: his)
  case 0
  then show ?case by simp
next
  case (Suc k)
  let ?m = "first_match v (upper_bounds his)"
  let ?h1 = "his\<lparr>his_sum := his_sum his + v,
       buckets := (if ?m < length (upper_bounds his)
                   then (buckets his)[?m := buckets his ! ?m + 1] else buckets his)\<rparr>"
  from Suc.prems have len: "length (buckets his) = length (upper_bounds his)"
    by (simp add: wf_child_def)
  have wf1: "wf_child ?h1" using Suc.prems by (simp add: wf_child_def)
  have "repeat_observe (Suc k) his v = repeat_observe k ?h1 v"
    by (simp add: observe_wf [OF Suc.prems])
  also have "\<dots> = Returns (?h1\<lparr>his_sum := his_sum ?h1 + real k * v,
                  buckets := (if first_match v (upper_bounds ?h1) < length (upper_bounds ?h1)
                              then (buckets ?h1)[first_match v (upper_bounds ?h1) :=
                                     buckets ?h1 ! first_match v (upper_bounds ?h1) + real k]
                              else buckets ?h1)\<rparr>)"
    by (rule Suc.IH [OF wf1])
  also have "\<dots> = Returns (his\<lparr>his_sum := his_sum his + real (Suc k) * v,
                  buckets := (if ?m < length (upper_bounds his)
                              then (buckets his)[?m := buckets his ! ?m + real (Suc k)]
                              else buckets his)\<rparr>)"
    using len by (simp add: algebra_simps)
  finally show ?case .
qed

lemma spec_bucket_index_first_match:
  "spec_bucket_index v bounds =
     (if first_match v bounds < length bounds then Some (first_match v bounds) else None)"
proof (cases "spec_bucket_index v bounds")
  case None
  then have "\<forall>i<length bounds. \<not> le_bound v (bounds ! i)"
    by (auto simp: spec_bucket_index_def find_None_iff)
  then have "\<forall>b \<in> set bounds. \<not> le_bound v b"
    by (auto simp: in_set_conv_nth)
  then have "takeWhile (\<lambda>b. \<not> le_bound v b) bounds = bounds" by simp
  then have "length (takeWhile (\<lambda>b. \<not> le_bound v b) bounds) = length bounds"
    by (simp only:)
  then have "first_match v bounds = length bounds" by (simp only: first_match_def)
  with None show ?thesis by simp
next
  case (Some i)
  then have "i < length bounds \<and> le_bound v (bounds ! i) \<and> (\<forall>j<i. \<not> le_bound v (bounds ! j))"
    by (auto simp: spec_bucket_index_def find_Some_iff)
  then have "i < length bounds" "first_match v bounds = i"
    using first_match_iff [of i bounds v] by auto
  with Some show ?thesis by simp
qed

lemma spec_observe_eq:
  "spec_observe his v =
     his\<lparr>his_sum := his_sum his + v,
         buckets := (if first_match v (upper_bounds his) < length (upper_bounds his)
                     then (buckets his)[first_match v (upper_bounds his) :=
                            buckets his ! first_match v (upper_bounds his) + 1]
                     else buckets his)\<rparr>"
  by (simp add: spec_observe_def spec_bucket_index_first_match)

lemma spec_observe_funpow:
  assumes "wf_child his"
  shows "((\<lambda>h. spec_observe h v) ^^ k) his =
     his\<lparr>his_sum := his_sum his + real k * v,
         buckets := (if first_match v (upper_bounds his) < length (upper_bounds his)
                     then (buckets his)[first_match v (upper_bounds his) :=
                            buckets his ! first_match v (upper_bounds his) + real k]
                     else buckets his)\<rparr>"
proof (induction k)
  case 0
  then show ?case by simp
next
  case (Suc k)
  from assms have len: "length (buckets his) = length (upper_bounds his)"
    by (simp add: wf_child_def)
  let ?m = "first_match v (upper_bounds his)"
  let ?hk = "his\<lparr>his_sum := his_sum his + real k * v,
         buckets := (if ?m < length (upper_bounds his)
                     then (buckets his)[?m := buckets his ! ?m + real k]
                     else buckets his)\<rparr>"
  have "((\<lambda>h. spec_observe h v) ^^ Suc k) his = spec_observe ?hk v"
    by (simp only: funpow.simps o_apply Suc)
  also have "\<dots> = his\<lparr>his_sum := his_sum his + real (Suc k) * v,
         buckets := (if ?m < length (upper_bounds his)
                     then (buckets his)[?m := buckets his ! ?m + real (Suc k)]
                     else buckets his)\<rparr>"
    using len by (simp add: spec_observe_eq algebra_simps)
  finally show ?case .
qed

lemma bumped_nth:
  assumes i: "i < length bounds" and len: "length bs = length bounds"
  shows "(if first_match a bounds < length bounds
          then bs[first_match a bounds := bs ! first_match a bounds + m] else bs) ! i =
      (if le_bound a (bounds ! i) \<and> (\<forall>j<i. \<not> le_bound a (bounds ! j))
       then bs ! i + m else bs ! i)"
proof -
  from first_match_iff [OF i, of a]
  have iff: "(first_match a bounds = i) =
      (le_bound a (bounds ! i) \<and> (\<forall>j<i. \<not> le_bound a (bounds ! j)))" .
  show ?thesis
  proof (cases "first_match a bounds = i")
    case True
    with i len have "(if first_match a bounds < length bounds
          then bs[first_match a bounds := bs ! first_match a bounds + m] else bs) ! i
        = bs ! i + m" by simp
    moreover from True iff have "le_bound a (bounds ! i) \<and>
        (\<forall>j<i. \<not> le_bound a (bounds ! j))" by blast
    ultimately show ?thesis by auto
  next
    case False
    then have "(if first_match a bounds < length bounds
          then bs[first_match a bounds := bs ! first_match a bounds + m] else bs) ! i
        = bs ! i" by simp
    moreover from False iff have "\<not> (le_bound a (bounds ! i) \<and>
        (\<forall>j<i. \<not> le_bound a (bounds ! j)))" by blast
    ultimately show ?thesis by auto
  qed
qed

lemma overflow_only:
  assumes n: "1 \<le> n" and wf: "wf_child (inter_token_his c)"
    and ov: "has_overflow (inter_token_his c)"
    and ex: "list_all (\<lambda>b. \<not> le_bound (x / real_of_int n) b)
              (butlast (upper_bounds (inter_token_his c)))"
  shows "\<exists>his'. observe_inter_token_latency c x n = Returns (set_inter_token c his') \<and>
        finite_buckets his' = finite_buckets (inter_token_his c) \<and>
        hist_count his' = hist_count (inter_token_his c) + real_of_int n \<and>
        overflow_bucket his' = overflow_bucket (inter_token_his c) + real_of_int n \<and>
        his_sum his' = his_sum (inter_token_his c) + x"
proof -
  define h where "h = inter_token_his c"
  define a where "a = x / real_of_int n"
  from ov have ne: "upper_bounds h \<noteq> []" and l: "last (upper_bounds h) = PInf"
    by (simp_all add: has_overflow_def h_def)
  then have eq: "upper_bounds h = butlast (upper_bounds h) @ [PInf]"
    using append_butlast_last_id [of "upper_bounds h"] by simp
  have "first_match a (butlast (upper_bounds h) @ [PInf]) = length (butlast (upper_bounds h))"
    using ex by (intro first_match_all_exceed) (simp_all add: h_def a_def)
  with eq have k: "first_match a (upper_bounds h) = length (upper_bounds h) - 1" by simp
  from wf have len: "length (buckets h) = length (upper_bounds h)"
    by (simp add: wf_child_def h_def)
  from ne len have bne: "buckets h \<noteq> []" by auto
  from ne have klt: "length (upper_bounds h) - 1 < length (upper_bounds h)" by simp
  define h' where "h' = h\<lparr>his_sum := his_sum h + x,
      buckets := (buckets h)[length (buckets h) - 1 :=
         buckets h ! (length (buckets h) - 1) + real_of_int n]\<rparr>"
  from n have "n \<noteq> 0" by simp
  then have run: "observe_inter_token_latency c x n = Returns (set_inter_token c h')"
    using observe_batch_wf [of h x a "real_of_int n"] wf k klt len
    by (simp add: observe_inter_token_latency_def Let_def h_def [symmetric] a_def [symmetric]
        h'_def)
  have fin: "finite_buckets h' = finite_buckets h"
    by (simp add: finite_buckets_def h'_def butlast_list_update)
  have cnt: "hist_count h' = hist_count h + real_of_int n"
    using bne by (simp add: hist_count_def h'_def sum_list_bump)
  have ovf: "overflow_bucket h' = overflow_bucket h + real_of_int n"
    using bne by (simp add: overflow_bucket_def h'_def last_list_update last_conv_nth)
  have sm: "his_sum h' = his_sum h + x" by (simp add: h'_def)
  from run fin cnt ovf sm show ?thesis unfolding h_def by blast
qed

lemma scenario_tokenizer_his:
  "inter_token_his scenario_tokenizer =
     \<lparr>his_sum = 0, upper_bounds = [Fin 0.1, Fin 0.5, Fin 1.0, PInf], buckets = [0, 0, 0, 0]\<rparr>"
  by (simp add: scenario_tokenizer_def inter_token_his_def Histogram_def new_child_def)

lemma scenario_first_raised:
  "raised (observe_inter_token_latency scenario_tokenizer 0.3 3) = None"
  by (simp add: observe_inter_token_latency_def observe_batch_def scenario_tokenizer_his
      Let_def)

lemma scenario_after_first_his:
  "inter_token_his scenario_after_first =
     \<lparr>his_sum = 0.3, upper_bounds = [Fin 0.1, Fin 0.5, Fin 1.0, PInf], buckets = [3, 0, 0, 0]\<rparr>"
  by (simp add: scenario_after_first_def observe_inter_token_latency_def observe_batch_def
      scenario_tokenizer_his Let_def)

lemma scenario_second_raised:
  "raised (observe_inter_token_latency scenario_after_first 1.5 1) = None"
  by (simp add: observe_inter_token_latency_def observe_batch_def scenario_after_first_his
      Let_def)

lemma scenario_after_second_his:
  "inter_token_his scenario_after_second =
     \<lparr>his_sum = 1.8, upper_bounds = [Fin 0.1, Fin 0.5, Fin 1.0, PInf], buckets = [3, 0, 0, 1]\<rparr>"
  by (simp add: scenario_after_second_def observe_inter_token_latency_def observe_batch_def
      scenario_after_first_his Let_def)

lemma state_of_map_outcome [simp]: "state_of (map_outcome f r) = f (state_of r)"
  by (cases r) simp_all

lemma raised_map_outcome [simp]: "raised (map_outcome f r) = raised r"
  by (cases r) simp_all

lemma log_histogram_wf:
  assumes "wf_child (histogram (label_values ls))"
  shows "log_histogram ls histogram data =
     Returns (histogram(label_values ls := state_of (observe (histogram (label_values ls)) data)))"
  using observe_wf [OF assms, of data] by (simp add: log_histogram_def)

lemma demo_key: "label_values (labels demo_tokenizer) = [''demo'']"
  by (simp add: demo_tokenizer_def TokenizerMetricsCollector_init_def demo_labels_def
      label_values_def)

section \<open>Properties of the most-recent merge\<close>

lemma merge_mostrecent_Some:
  "\<exists>r. merge_mostrecent (Some q) ws = Some r \<and> r \<in> insert q (set ws) \<and>
       (\<forall>p \<in> insert q (set ws). fst p \<le> fst r)"
proof (induction ws arbitrary: q)
  case Nil
  then show ?case by simp
next
  case (Cons p ws)
  show ?case
  proof (cases "fst q < fst p")
    case True
    from Cons.IH [of p] obtain r where r: "merge_mostrecent (Some p) ws = Some r"
      "r \<in> insert p (set ws)" "\<forall>x \<in> insert p (set ws). fst x \<le> fst r" by blast
    from r(3) have "fst p \<le> fst r" by simp
    with True have "fst q \<le> fst r" by simp
    with r True show ?thesis by auto
  next
    case False
    from Cons.IH [of q] obtain r where r: "merge_mostrecent (Some q) ws = Some r"
      "r \<in> insert q (set ws)" "\<forall>x \<in> insert q (set ws). fst x \<le> fst r" by blast
    from r(3) have "fst q \<le> fst r" by simp
    with False have "fst p \<le> fst r" by simp
    with r False show ?thesis by auto
  qed
qed

lemma merge_mostrecent_None:
  assumes "ws \<noteq> []"
  shows "\<exists>r. merge_mostrecent None ws = Some r \<and> r \<in> set ws \<and> (\<forall>p \<in> set ws. fst p \<le> fst r)"
proof (cases ws)
  case Nil
  with assms show ?thesis by simp
next
  case (Cons q rest)
  with merge_mostrecent_Some [of q rest] show ?thesis by simp
qed

lemma merged_read_latest:
  assumes d: "distinct (map fst copies)" and m: "(t, v) \<in> set copies"
    and latest: "\<forall>p \<in> set copies. fst p \<le> t"
  shows "merged_read copies = Some v"
proof -
  from m have "copies \<noteq> []" by auto
  from merge_mostrecent_None [OF this] obtain r where r: "merge_mostrecent None copies = Some r"
    "r \<in> set copies" "\<forall>p \<in> set copies. fst p \<le> fst r" by blast
  from r(3) m have "t \<le> fst r" by force
  moreover from latest r(2) have "fst r \<le> t" by blast
  ultimately have "fst r = fst (t, v)" by simp
  moreover from d have "inj_on fst (set copies)" by (simp add: distinct_map)
  ultimately have "r = (t, v)" using r(2) m by (blast dest: inj_onD)
  with r(1) show ?thesis by (simp add: merged_read_def)
qed

lemma merged_read_order:
  assumes d: "distinct (map fst copies)" and p: "mset copies' = mset copies"
  shows "merged_read copies' = merged_read copies"
proof (cases "copies = []")
  case True
  with p show ?thesis by simp
next
  case False
  from merge_mostrecent_None [OF this] obtain r where r: "merge_mostrecent None copies = Some r"
    "r \<in> set copies" "\<forall>p \<in> set copies. fst p \<le> fst r" by blast
  from p have s: "set copies' = set copies" by (rule mset_eq_setD)
  from p have "mset (map fst copies') = mset (map fst copies)" by simp
  with d have d': "distinct (map fst copies')" by (metis mset_eq_imp_distinct_iff)
  obtain t v where tv: "r = (t, v)" by (cases r)
  from merged_read_latest [OF d, of t v] r tv have "merged_read copies = Some v" by simp
  moreover from merged_read_latest [OF d', of t v] r tv s have "merged_read copies' = Some v"
    by simp
  ultimately show ?thesis by simp
qed

section \<open>The batched observation of inter-token latency\<close>

text \<open>
  C1. For every call \<open>observe_inter_token_latency c x n\<close> with \<open>n \<ge> 1\<close> (on an
  accumulator with one counter per bound) the call returns; the raw interval \<open>x\<close> is
  added once to the running sum; the counter of the first bound, scanning from the
  smallest, that is at least the adjusted interval \<open>x / n\<close> grows by \<open>n\<close>; every other
  counter, the bounds and the rest of the collector are unchanged.
\<close>

theorem observe_inter_token_latency_first_bucket:
  assumes n: "1 \<le> n" and wf: "wf_child (inter_token_his c)"
  shows "\<exists>his'. observe_inter_token_latency c x n = Returns (set_inter_token c his') \<and>
     his_sum his' = his_sum (inter_token_his c) + x \<and>
     upper_bounds his' = upper_bounds (inter_token_his c) \<and>
     length (buckets his') = length (buckets (inter_token_his c)) \<and>
     (\<forall>i<length (upper_bounds (inter_token_his c)).
        buckets his' ! i =
          (if le_bound (x / real_of_int n) (upper_bounds (inter_token_his c) ! i) \<and>
              (\<forall>j<i. \<not> le_bound (x / real_of_int n) (upper_bounds (inter_token_his c) ! j))
           then buckets (inter_token_his c) ! i + real_of_int n
           else buckets (inter_token_his c) ! i))"
proof -
  define h where "h = inter_token_his c"
  define k where "k = first_match (x / real_of_int n) (upper_bounds h)"
  define bs' where "bs' = (if k < length (upper_bounds h)
      then (buckets h)[k := buckets h ! k + real_of_int n] else buckets h)"
  define h' where "h' = h\<lparr>his_sum := his_sum h + x, buckets := bs'\<rparr>"
  from wf have len: "length (buckets h) = length (upper_bounds h)"
    by (simp add: wf_child_def h_def)
  have run: "observe_batch h x (x / real_of_int n) (real_of_int n) = Returns h'"
    using wf observe_batch_wf [of h x "x / real_of_int n" "real_of_int n"]
    by (simp add: h_def h'_def bs'_def k_def)
  from n have "n \<noteq> 0" by simp
  with run have call: "observe_inter_token_latency c x n = Returns (set_inter_token c h')"
    by (simp add: observe_inter_token_latency_def Let_def h_def)
  have each: "bs' ! i =
      (if le_bound (x / real_of_int n) (upper_bounds h ! i) \<and>
          (\<forall>j<i. \<not> le_bound (x / real_of_int n) (upper_bounds h ! j))
       then buckets h ! i + real_of_int n else buckets h ! i)"
    if i: "i < length (upper_bounds h)" for i
  proof -
    from first_match_iff [OF i, of "x / real_of_int n"]
    have iff: "(k = i) = (le_bound (x / real_of_int n) (upper_bounds h ! i) \<and>
          (\<forall>j<i. \<not> le_bound (x / real_of_int n) (upper_bounds h ! j)))"
      by (simp add: k_def)
    show ?thesis
    proof (cases "k = i")
      case True
      with i len have "bs' ! i = buckets h ! i + real_of_int n" by (simp add: bs'_def)
      moreover from True iff have "le_bound (x / real_of_int n) (upper_bounds h ! i) \<and>
          (\<forall>j<i. \<not> le_bound (x / real_of_int n) (upper_bounds h ! j))" by blast
      ultimately show ?thesis by auto
    next
      case False
      then have "bs' ! i = buckets h ! i" by (simp add: bs'_def)
      moreover from False iff have "\<not> (le_bound (x / real_of_int n) (upper_bounds h ! i) \<and>
          (\<forall>j<i. \<not> le_bound (x / real_of_int n) (upper_bounds h ! j)))" by blast
      ultimately show ?thesis by auto
    qed
  qed
  have "his_sum h' = his_sum h + x" "upper_bounds h' = upper_bounds h"
    "length (buckets h') = length (buckets h)"
    by (simp_all add: h'_def bs'_def)
  moreover have "\<forall>i<length (upper_bounds h). buckets h' ! i =
      (if le_bound (x / real_of_int n) (upper_bounds h ! i) \<and>
          (\<forall>j<i. \<not> le_bound (x / real_of_int n) (upper_bounds h ! j))
       then buckets h ! i + real_of_int n else buckets h ! i)"
    using each by (simp add: h'_def)
  ultimately show ?thesis using call unfolding h_def by blast
qed

theorem observe_inter_token_latency_first_bucket_witness:
  "(1::int) \<le> 3 \<and> wf_child (inter_token_his demo_tokenizer) \<and>
   raised (observe_inter_token_latency demo_tokenizer 0.3 3) = None \<and>
   his_sum (inter_token_his (state_of (observe_inter_token_latency demo_tokenizer 0.3 3)))
     = 0.3 \<and>
   buckets (inter_token_his (state_of (observe_inter_token_latency demo_tokenizer 0.3 3))) =
     [0, 0, 0, 0, 0, 0, 0, 0, 0, 0, 0, 0, 0, 3, 0, 0, 0, 0, 0, 0, 0, 0, 0]"
  using observe_inter_token_latency_first_bucket [of 3 demo_tokenizer "0.3"]
  by (simp add: demo_tokenizer_def observe_inter_token_latency_def observe_batch_def
      new_child_def buckets_inter_token_latency_def wf_child_def Let_def)

text \<open>
  C2. When the adjusted interval \<open>x / n\<close> exceeds every finite bound of a histogram whose
  last bound is \<^verbatim>\<open>+Inf\<close>, the call changes no finite bucket, and the sample count
  (the total of the bucket counters) still grows by \<open>n\<close>: the samples are held by the
  \<^verbatim>\<open>+Inf\<close> bucket. In the scenario of Section 8, on a histogram with the finite
  buckets 0.1, 0.5 and 1.0, after \<open>observe_inter_token_latency 0.3 3\<close> and then
  \<open>observe_inter_token_latency 1.5 1\<close> the bucket 0.1 holds 3, the sum is 1.8, the count
  is 4, and the overflow count, also when inferred as the count minus the finite
  buckets, is 1.
\<close>

theorem overflow_still_counted:
  "(1 \<le> n \<and> wf_child (inter_token_his c) \<and> has_overflow (inter_token_his c) \<and>
    list_all (\<lambda>b. \<not> le_bound (x / real_of_int n) b)
      (butlast (upper_bounds (inter_token_his c))) \<longrightarrow>
     (\<exists>his'. observe_inter_token_latency c x n = Returns (set_inter_token c his') \<and>
        finite_buckets his' = finite_buckets (inter_token_his c) \<and>
        hist_count his' = hist_count (inter_token_his c) + real_of_int n \<and>
        overflow_bucket his' = overflow_bucket (inter_token_his c) + real_of_int n \<and>
        his_sum his' = his_sum (inter_token_his c) + x)) \<and>
   raised (observe_inter_token_latency scenario_tokenizer 0.3 3) = None \<and>
   raised (observe_inter_token_latency scenario_after_first 1.5 1) = None \<and>
   upper_bounds (inter_token_his scenario_tokenizer) = [Fin 0.1, Fin 0.5, Fin 1.0, PInf] \<and>
   buckets (inter_token_his scenario_tokenizer) = [0, 0, 0, 0] \<and>
   buckets (inter_token_his scenario_after_first) = [3, 0, 0, 0] \<and>
   his_sum (inter_token_his scenario_after_first) = 0.3 \<and>
   finite_buckets (inter_token_his scenario_after_second) = [3, 0, 0] \<and>
   his_sum (inter_token_his scenario_after_second) = 1.8 \<and>
   hist_count (inter_token_his scenario_after_second) = 4 \<and>
   overflow_bucket (inter_token_his scenario_after_second) = 1 \<and>
   hist_count (inter_token_his scenario_after_second)
     - sum_list (finite_buckets (inter_token_his scenario_after_second)) = 1"
proof (intro conjI impI)
  assume "1 \<le> n \<and> wf_child (inter_token_his c) \<and> has_overflow (inter_token_his c) \<and>
    list_all (\<lambda>b. \<not> le_bound (x / real_of_int n) b)
      (butlast (upper_bounds (inter_token_his c)))"
  then show "\<exists>his'. observe_inter_token_latency c x n = Returns (set_inter_token c his') \<and>
        finite_buckets his' = finite_buckets (inter_token_his c) \<and>
        hist_count his' = hist_count (inter_token_his c) + real_of_int n \<and>
        overflow_bucket his' = overflow_bucket (inter_token_his c) + real_of_int n \<and>
        his_sum his' = his_sum (inter_token_his c) + x"
    using overflow_only [of n c x] by blast
qed (rule scenario_first_raised, rule scenario_second_raised,
    simp_all add: scenario_tokenizer_his
    scenario_after_first_his scenario_after_second_his finite_buckets_def hist_count_def
    overflow_bucket_def)

theorem overflow_still_counted_witness:
  "(1::int) \<le> 1 \<and> wf_child (inter_token_his scenario_after_first) \<and>
   has_overflow (inter_token_his scenario_after_first) \<and>
   list_all (\<lambda>b. \<not> le_bound (1.5 / real_of_int 1) b)
      (butlast (upper_bounds (inter_token_his scenario_after_first))) \<and>
   (\<exists>his'. observe_inter_token_latency scenario_after_first 1.5 1 =
        Returns (set_inter_token scenario_after_first his') \<and>
        finite_buckets his' = [3, 0, 0] \<and> hist_count his' = 4 \<and>
        overflow_bucket his' = 1 \<and> his_sum his' = 1.8)"
proof -
  have hyp: "(1::int) \<le> 1 \<and> wf_child (inter_token_his scenario_after_first) \<and>
     has_overflow (inter_token_his scenario_after_first) \<and>
     list_all (\<lambda>b. \<not> le_bound (1.5 / real_of_int 1) b)
        (butlast (upper_bounds (inter_token_his scenario_after_first)))"
    by (simp add: scenario_after_first_his wf_child_def has_overflow_def)
  from overflow_still_counted [of 1 scenario_after_first "1.5", THEN conjunct1, rule_format, OF hyp]
  obtain his' where "observe_inter_token_latency scenario_after_first 1.5 1 =
        Returns (set_inter_token scenario_after_first his')"
     "finite_buckets his' = finite_buckets (inter_token_his scenario_after_first)"
     "hist_count his' = hist_count (inter_token_his scenario_after_first) + real_of_int 1"
     "overflow_bucket his' = overflow_bucket (inter_token_his scenario_after_first) + real_of_int 1"
     "his_sum his' = his_sum (inter_token_his scenario_after_first) + 1.5" by blast
  then have "observe_inter_token_latency scenario_after_first 1.5 1 =
        Returns (set_inter_token scenario_after_first his') \<and>
        finite_buckets his' = [3, 0, 0] \<and> hist_count his' = 4 \<and>
        overflow_bucket his' = 1 \<and> his_sum his' = 1.8"
    by (simp add: scenario_after_first_his finite_buckets_def hist_count_def overflow_bucket_def)
  with hyp show ?thesis by blast
qed



text \<open>
  C4. For every interval \<open>x\<close> and every \<open>n \<ge> 1\<close> (on an accumulator with one counter
  per bound), one call of \<open>observe_inter_token_latency c x n\<close> returns an accumulator in
  which the counter of the first bound that is at least \<open>x / n\<close> has grown by \<open>n\<close>, every
  other counter is as before, and the sum has grown by \<open>x\<close>. The \<open>n\<close> individual
  single-sample observations of \<open>x / n\<close>, taken as the spec words them, end with the same
  bounds and the same counters, and with the sum grown by \<open>n * (x / n)\<close>, which is \<open>x\<close> in
  exact arithmetic (floats are reals here; the rounding of IEEE doubles, to which the
  claim's "up to rounding" refers, is outside the model): the two accumulators are
  equal. The same holds for \<open>n\<close> calls of the library's \<open>observe\<close>.
\<close>

theorem batched_equals_individual:
  assumes n: "1 \<le> n" and wf: "wf_child (inter_token_his c)"
  shows "\<exists>his'. observe_inter_token_latency c x n = Returns (set_inter_token c his') \<and>
     (\<forall>i<length (upper_bounds (inter_token_his c)).
        buckets his' ! i =
          (if le_bound (x / real_of_int n) (upper_bounds (inter_token_his c) ! i) \<and>
              (\<forall>j<i. \<not> le_bound (x / real_of_int n) (upper_bounds (inter_token_his c) ! j))
           then buckets (inter_token_his c) ! i + real_of_int n
           else buckets (inter_token_his c) ! i)) \<and>
     length (buckets his') = length (buckets (inter_token_his c)) \<and>
     his_sum his' = his_sum (inter_token_his c) + x \<and>
     buckets (spec_individual_observations (inter_token_his c) x n) = buckets his' \<and>
     upper_bounds (spec_individual_observations (inter_token_his c) x n) = upper_bounds his' \<and>
     his_sum (spec_individual_observations (inter_token_his c) x n) =
       his_sum (inter_token_his c) + real_of_int n * (x / real_of_int n) \<and>
     spec_individual_observations (inter_token_his c) x n = his' \<and>
     individual_observations c x n = Returns (set_inter_token c his')"
proof -
  define h where "h = inter_token_his c"
  define a where "a = x / real_of_int n"
  define k where "k = first_match a (upper_bounds h)"
  define bs' where "bs' = (if k < length (upper_bounds h)
      then (buckets h)[k := buckets h ! k + real_of_int n] else buckets h)"
  define h' where "h' = h\<lparr>his_sum := his_sum h + x, buckets := bs'\<rparr>"
  from wf have wfh: "wf_child h" by (simp add: h_def)
  then have len: "length (buckets h) = length (upper_bounds h)" by (simp add: wf_child_def)
  from n have n0: "n \<noteq> 0" and rn: "real (nat n) = real_of_int n" by simp_all
  from n0 have mul: "real_of_int n * a = x" by (simp add: a_def)
  have run: "batched_his h x n = Returns h'"
    using n0 observe_batch_wf [OF wfh, of x a "real_of_int n"]
    by (simp add: batched_his_def a_def [symmetric] h'_def bs'_def k_def)
  then have call: "observe_inter_token_latency c x n = Returns (set_inter_token c h')"
    by (simp add: observe_inter_token_latency_his h_def)
  have each: "\<forall>i<length (upper_bounds h). buckets h' ! i =
      (if le_bound a (upper_bounds h ! i) \<and> (\<forall>j<i. \<not> le_bound a (upper_bounds h ! j))
       then buckets h ! i + real_of_int n else buckets h ! i)"
  proof (intro allI impI)
    fix i assume i: "i < length (upper_bounds h)"
    have bh: "buckets h' = (if first_match a (upper_bounds h) < length (upper_bounds h)
        then (buckets h)[first_match a (upper_bounds h) :=
               buckets h ! first_match a (upper_bounds h) + real_of_int n]
        else buckets h)"
      by (simp add: h'_def bs'_def k_def)
    show "buckets h' ! i =
      (if le_bound a (upper_bounds h ! i) \<and> (\<forall>j<i. \<not> le_bound a (upper_bounds h ! j))
       then buckets h ! i + real_of_int n else buckets h ! i)"
      unfolding bh by (rule bumped_nth [OF i len])
  qed
  have basic: "length (buckets h') = length (buckets h)" "his_sum h' = his_sum h + x"
    by (simp_all add: h'_def bs'_def)
  have spec: "spec_individual_observations h x n =
      h\<lparr>his_sum := his_sum h + real_of_int n * a, buckets := bs'\<rparr>"
    by (simp add: spec_individual_observations_def a_def [symmetric]
        spec_observe_funpow [OF wfh] rn bs'_def k_def)
  have s1: "buckets (spec_individual_observations h x n) = buckets h'"
    "upper_bounds (spec_individual_observations h x n) = upper_bounds h'"
    "his_sum (spec_individual_observations h x n) = his_sum h + real_of_int n * a"
    by (simp_all add: spec h'_def)
  have s2: "spec_individual_observations h x n = h'"
    by (simp add: spec h'_def mul)
  have lib: "individual_observations c x n = Returns (set_inter_token c h')"
    using mul
    by (simp add: individual_observations_def h_def [symmetric] a_def [symmetric]
        repeat_observe_wf [OF wfh] rn h'_def bs'_def k_def)
  from call each basic s1 s2 lib show ?thesis
    unfolding h_def a_def by blast
qed

theorem batched_equals_individual_witness:
  "(1::int) \<le> 3 \<and> wf_child (inter_token_his demo_tokenizer) \<and>
   raised (observe_inter_token_latency demo_tokenizer 0.3 3) = None \<and>
   buckets (inter_token_his (state_of (observe_inter_token_latency demo_tokenizer 0.3 3))) =
     [0, 0, 0, 0, 0, 0, 0, 0, 0, 0, 0, 0, 0, 3, 0, 0, 0, 0, 0, 0, 0, 0, 0] \<and>
   buckets (spec_individual_observations (inter_token_his demo_tokenizer) 0.3 3) =
     [0, 0, 0, 0, 0, 0, 0, 0, 0, 0, 0, 0, 0, 3, 0, 0, 0, 0, 0, 0, 0, 0, 0] \<and>
   his_sum (spec_individual_observations (inter_token_his demo_tokenizer) 0.3 3) = 0.3 \<and>
   observe_inter_token_latency demo_tokenizer 0.3 3 =
     Returns (set_inter_token demo_tokenizer
       (spec_individual_observations (inter_token_his demo_tokenizer) 0.3 3)) \<and>
   individual_observations demo_tokenizer 0.3 3 =
     observe_inter_token_latency demo_tokenizer 0.3 3"
proof -
  have h: "(1::int) \<le> 3" by simp
  have wf: "wf_child (inter_token_his demo_tokenizer)" by (simp add: demo_tokenizer_def)
  from batched_equals_individual [OF h wf, of "0.3"]
  obtain his' where r:
    "observe_inter_token_latency demo_tokenizer 0.3 3 = Returns (set_inter_token demo_tokenizer his')"
    "spec_individual_observations (inter_token_his demo_tokenizer) 0.3 3 = his'"
    "individual_observations demo_tokenizer 0.3 3 = Returns (set_inter_token demo_tokenizer his')"
    by blast
  have e: "buckets (inter_token_his (state_of (observe_inter_token_latency demo_tokenizer 0.3 3))) =
     [0, 0, 0, 0, 0, 0, 0, 0, 0, 0, 0, 0, 0, 3, 0, 0, 0, 0, 0, 0, 0, 0, 0]"
    "his_sum (inter_token_his (state_of (observe_inter_token_latency demo_tokenizer 0.3 3))) = 0.3"
    by (simp_all add: demo_tokenizer_def observe_inter_token_latency_def observe_batch_def
      new_child_def buckets_inter_token_latency_def Let_def)
  from r have his: "inter_token_his (state_of (observe_inter_token_latency demo_tokenizer 0.3 3)) = his'"
    by simp
  from e have "buckets his' = [0, 0, 0, 0, 0, 0, 0, 0, 0, 0, 0, 0, 0, 3, 0, 0, 0, 0, 0, 0, 0, 0, 0]"
    "his_sum his' = 0.3" unfolding his by simp_all
  with r h wf show ?thesis by simp
qed

text \<open>
  C10. The division is unguarded: with \<open>n = 0\<close> the call raises
  \<open>ZeroDivisionError\<close> and the collector, hence the sum and every bucket, is as
  before. With \<open>n \<noteq> 0\<close> the call never raises \<open>ZeroDivisionError\<close>, and with
  \<open>n \<ge> 1\<close> (on an accumulator with one counter per bound) it returns.
\<close>

theorem observe_inter_token_latency_zero_tokens:
  "observe_inter_token_latency c x 0 = Raises ZeroDivisionError c \<and>
   (n \<noteq> 0 \<longrightarrow> raised (observe_inter_token_latency c x n) \<noteq> Some ZeroDivisionError) \<and>
   (1 \<le> n \<and> wf_child (inter_token_his c) \<longrightarrow>
      (\<exists>c'. observe_inter_token_latency c x n = Returns c'))"
proof (intro conjI impI)
  show "observe_inter_token_latency c x 0 = Raises ZeroDivisionError c"
    by (simp add: observe_inter_token_latency_def)
next
  assume "n \<noteq> 0"
  then show "raised (observe_inter_token_latency c x n) \<noteq> Some ZeroDivisionError"
    by (simp add: observe_inter_token_latency_def observe_batch_def Let_def
        split: option.splits)
next
  assume h: "1 \<le> n \<and> wf_child (inter_token_his c)"
  then have "n \<noteq> 0" by simp
  with h observe_batch_wf [of "inter_token_his c" x "x / real_of_int n" "real_of_int n"]
  show "\<exists>c'. observe_inter_token_latency c x n = Returns c'"
    by (simp add: observe_inter_token_latency_def Let_def)
qed

theorem observe_inter_token_latency_zero_tokens_witness:
  "observe_inter_token_latency demo_tokenizer 1.5 0 = Raises ZeroDivisionError demo_tokenizer \<and>
   (1::int) \<noteq> 0 \<and>
   raised (observe_inter_token_latency demo_tokenizer 1.5 1) \<noteq> Some ZeroDivisionError \<and>
   (1::int) \<le> 1 \<and> wf_child (inter_token_his demo_tokenizer) \<and>
   (\<exists>c'. observe_inter_token_latency demo_tokenizer 1.5 1 = Returns c')"
  using observe_inter_token_latency_zero_tokens [of demo_tokenizer "1.5" 1]
  by (simp add: demo_tokenizer_def)

section \<open>Finished requests\<close>

text \<open>
  C5. For every call \<open>observe_one_finished_request c prompt_tokens 0 cached_tokens
  e2e_latency\<close> with non-negative prompt and cached token counts (the amounts the
  counters accept; the end-to-end accumulator has one counter per bound): the call
  returns; the prompt, generation and cached counters have grown by the given amounts
  (the generation counter by 0) and the request counter by 1; the end-to-end histogram
  holds the observation of \<open>e2e_latency\<close>; the time-per-output-token histogram and
  everything else are unchanged. For any \<open>generation_tokens\<close>, the
  time-per-output-token histogram after the call holds the observation of
  \<open>e2e_latency / generation_tokens\<close> if \<open>generation_tokens \<ge> 1\<close>, and is unchanged
  otherwise.
\<close>

theorem observe_one_finished_request_zero_generation:
  assumes p: "0 \<le> prompt_tokens" and ca: "0 \<le> cached_tokens"
    and wf: "wf_child (histogram_e2e_request_latency c (label_values (labels c)))"
  shows "observe_one_finished_request c prompt_tokens 0 cached_tokens e2e_latency =
     Returns (c\<lparr>prompt_tokens_total :=
                  (prompt_tokens_total c)(label_values (labels c) :=
                     prompt_tokens_total c (label_values (labels c)) + real_of_int prompt_tokens),
                generation_tokens_total :=
                  (generation_tokens_total c)(label_values (labels c) :=
                     generation_tokens_total c (label_values (labels c)) + real_of_int 0),
                cached_tokens_total :=
                  (cached_tokens_total c)(label_values (labels c) :=
                     cached_tokens_total c (label_values (labels c)) + real_of_int cached_tokens),
                num_requests_total :=
                  (num_requests_total c)(label_values (labels c) :=
                     num_requests_total c (label_values (labels c)) + 1),
                histogram_e2e_request_latency :=
                  (histogram_e2e_request_latency c)(label_values (labels c) :=
                     state_of (observe (histogram_e2e_request_latency c (label_values (labels c)))
                                 e2e_latency))\<rparr>) \<and>
     raised (observe (histogram_e2e_request_latency c (label_values (labels c))) e2e_latency) = None \<and>
     histogram_time_per_output_token
       (state_of (observe_one_finished_request c prompt_tokens generation_tokens cached_tokens
                    e2e_latency)) =
       (if 1 \<le> generation_tokens
        then (histogram_time_per_output_token c)(label_values (labels c) :=
               state_of (observe (histogram_time_per_output_token c (label_values (labels c)))
                           (e2e_latency / real_of_int generation_tokens)))
        else histogram_time_per_output_token c)"
proof -
  note lh = log_histogram_wf [of "histogram_e2e_request_latency c" "labels c", OF wf]
  have A: "observe_one_finished_request c prompt_tokens 0 cached_tokens e2e_latency =
     Returns (c\<lparr>prompt_tokens_total :=
                  (prompt_tokens_total c)(label_values (labels c) :=
                     prompt_tokens_total c (label_values (labels c)) + real_of_int prompt_tokens),
                generation_tokens_total :=
                  (generation_tokens_total c)(label_values (labels c) :=
                     generation_tokens_total c (label_values (labels c)) + real_of_int 0),
                cached_tokens_total :=
                  (cached_tokens_total c)(label_values (labels c) :=
                     cached_tokens_total c (label_values (labels c)) + real_of_int cached_tokens),
                num_requests_total :=
                  (num_requests_total c)(label_values (labels c) :=
                     num_requests_total c (label_values (labels c)) + 1),
                histogram_e2e_request_latency :=
                  (histogram_e2e_request_latency c)(label_values (labels c) :=
                     state_of (observe (histogram_e2e_request_latency c (label_values (labels c)))
                                 e2e_latency))\<rparr>)"
    using p ca by (simp add: observe_one_finished_request_def counter_inc_def lh)
have B: "raised (observe (histogram_e2e_request_latency c (label_values (labels c))) e2e_latency) = None"
    by (simp add: observe_wf [OF wf])
have C: "histogram_time_per_output_token
       (state_of (observe_one_finished_request c prompt_tokens generation_tokens cached_tokens
                    e2e_latency)) =
       (if 1 \<le> generation_tokens
        then (histogram_time_per_output_token c)(label_values (labels c) :=
               state_of (observe (histogram_time_per_output_token c (label_values (labels c)))
                           (e2e_latency / real_of_int generation_tokens)))
        else histogram_time_per_output_token c)"
    using p ca
    by (simp add: observe_one_finished_request_def counter_inc_def lh)
      (simp add: log_histogram_def)
  from A B C show ?thesis by (intro conjI)
qed

theorem observe_one_finished_request_zero_generation_witness:
  "(0::int) \<le> 12 \<and> (0::int) \<le> 4 \<and>
   wf_child (histogram_e2e_request_latency demo_tokenizer (label_values (labels demo_tokenizer))) \<and>
   raised (observe_one_finished_request demo_tokenizer 12 0 4 0.7) = None \<and>
   prompt_tokens_total (state_of (observe_one_finished_request demo_tokenizer 12 0 4 0.7))
     [''demo''] = 12 \<and>
   generation_tokens_total (state_of (observe_one_finished_request demo_tokenizer 12 0 4 0.7))
     [''demo''] = 0 \<and>
   cached_tokens_total (state_of (observe_one_finished_request demo_tokenizer 12 0 4 0.7))
     [''demo''] = 4 \<and>
   num_requests_total (state_of (observe_one_finished_request demo_tokenizer 12 0 4 0.7))
     [''demo''] = 1 \<and>
   his_sum (histogram_e2e_request_latency
     (state_of (observe_one_finished_request demo_tokenizer 12 0 4 0.7)) [''demo'']) = 0.7 \<and>
   histogram_time_per_output_token
     (state_of (observe_one_finished_request demo_tokenizer 12 0 4 0.7)) =
     histogram_time_per_output_token demo_tokenizer"
proof -
  have wf: "wf_child (histogram_e2e_request_latency demo_tokenizer
      (label_values (labels demo_tokenizer)))"
    by (simp add: demo_tokenizer_def TokenizerMetricsCollector_init_def Histogram_def)
  have h: "(0::int) \<le> 12" "(0::int) \<le> 4" by simp_all
  note t = observe_one_finished_request_zero_generation
    [OF h wf, of "0.7" 0, unfolded demo_key]
  have z: "prompt_tokens_total demo_tokenizer [''demo''] = 0"
    "generation_tokens_total demo_tokenizer [''demo''] = 0"
    "cached_tokens_total demo_tokenizer [''demo''] = 0"
    "num_requests_total demo_tokenizer [''demo''] = 0"
    "his_sum (histogram_e2e_request_latency demo_tokenizer [''demo'']) = 0"
    by (simp_all add: demo_tokenizer_def TokenizerMetricsCollector_init_def Counter_def
        Histogram_def new_child_def)
  have s: "his_sum (state_of (observe (histogram_e2e_request_latency demo_tokenizer [''demo''])
      0.7)) = 0.7"
    using z(5) by (simp add: observe_def Let_def split: option.splits)
  from t z s wf h show ?thesis by simp
qed

text \<open>
  C6, as amended. The collector has no handler: a failing increment ends the call and
  reaches the caller. When one of the three token counts is negative, the call raises
  \<open>InvalidObservation\<close> at the first negative one; the counters incremented before it
  keep their new values, and the failing counter, the later counters, the request
  counter and every histogram are unchanged.
\<close>

theorem observe_one_finished_request_negative_propagates:
  assumes "prompt_tokens < 0 \<or> generation_tokens < 0 \<or> cached_tokens < 0"
  shows "observe_one_finished_request c prompt_tokens generation_tokens cached_tokens e2e_latency =
     Raises InvalidObservation
       (c\<lparr>prompt_tokens_total :=
            (if 0 \<le> prompt_tokens
             then (prompt_tokens_total c)(label_values (labels c) :=
                    prompt_tokens_total c (label_values (labels c)) + real_of_int prompt_tokens)
             else prompt_tokens_total c),
          generation_tokens_total :=
            (if 0 \<le> prompt_tokens \<and> 0 \<le> generation_tokens
             then (generation_tokens_total c)(label_values (labels c) :=
                    generation_tokens_total c (label_values (labels c))
                      + real_of_int generation_tokens)
             else generation_tokens_total c)\<rparr>)"
  using assms by (auto simp add: observe_one_finished_request_def counter_inc_def)

theorem observe_one_finished_request_negative_propagates_witness:
  "((5::int) < 0 \<or> (- 1::int) < 0 \<or> (0::int) < 0) \<and>
   raised (observe_one_finished_request demo_tokenizer 5 (- 1) 0 1) = Some InvalidObservation \<and>
   prompt_tokens_total (state_of (observe_one_finished_request demo_tokenizer 5 (- 1) 0 1))
     [''demo''] = 5 \<and>
   generation_tokens_total (state_of (observe_one_finished_request demo_tokenizer 5 (- 1) 0 1))
     = generation_tokens_total demo_tokenizer \<and>
   num_requests_total (state_of (observe_one_finished_request demo_tokenizer 5 (- 1) 0 1))
     = num_requests_total demo_tokenizer"
proof -
  have h: "(5::int) < 0 \<or> (- 1::int) < 0 \<or> (0::int) < 0" by simp
  have z: "prompt_tokens_total demo_tokenizer [''demo''] = 0"
    by (simp add: demo_tokenizer_def TokenizerMetricsCollector_init_def Counter_def)
  from observe_one_finished_request_negative_propagates [OF h, of demo_tokenizer 1] z h
  show ?thesis by (simp add: demo_key)
qed

text \<open>
  The claim as stated fails: with 5 prompt tokens and -1 generation tokens the call
  raises, and the prompt counter has already grown from 0 to 5.
\<close>

theorem negative_token_count_counterexample:
  "raised (observe_one_finished_request demo_tokenizer 5 (- 1) 0 1) = Some InvalidObservation \<and>
   prompt_tokens_total demo_tokenizer [''demo''] = 0 \<and>
   prompt_tokens_total (state_of (observe_one_finished_request demo_tokenizer 5 (- 1) 0 1))
     [''demo''] = 5 \<and>
   state_of (observe_one_finished_request demo_tokenizer 5 (- 1) 0 1) \<noteq> demo_tokenizer"
proof -
  have r: "observe_one_finished_request demo_tokenizer 5 (- 1) 0 1 =
     Raises InvalidObservation
       (demo_tokenizer\<lparr>prompt_tokens_total :=
          (prompt_tokens_total demo_tokenizer)([''demo''] :=
             prompt_tokens_total demo_tokenizer [''demo''] + 5)\<rparr>)"
    by (simp add: observe_one_finished_request_def counter_inc_def demo_key)
  have z: "prompt_tokens_total demo_tokenizer [''demo''] = 0"
    by (simp add: demo_tokenizer_def TokenizerMetricsCollector_init_def Counter_def)
  have v: "prompt_tokens_total (state_of (observe_one_finished_request demo_tokenizer 5 (- 1) 0 1))
     [''demo''] = 5"
    by (simp add: r z)
  from v z have "state_of (observe_one_finished_request demo_tokenizer 5 (- 1) 0 1)
      \<noteq> demo_tokenizer" by auto
  with r z v show ?thesis by simp
qed

section \<open>Scheduler statistics\<close>

text \<open>
  C7. For every snapshot, \<open>log_stats\<close> sets each of the seven gauges, at the tuple of
  the collector's label values, to the matching field of the snapshot, and leaves every
  other tuple of the gauge as it was; it sets \<open>last_log_time\<close> to the clock's value;
  the queue-latency histogram and the labels are unchanged.
\<close>

theorem log_stats_sets_seven_gauges:
  "(\<forall>key. SchedulerMetricsCollector.num_running_reqs (log_stats c stats now) key =
      (if key = label_values (SchedulerMetricsCollector.labels c)
       then real_of_int (SchedulerStats.num_running_reqs stats)
       else SchedulerMetricsCollector.num_running_reqs c key)) \<and>
   (\<forall>key. SchedulerMetricsCollector.num_used_tokens (log_stats c stats now) key =
      (if key = label_values (SchedulerMetricsCollector.labels c)
       then real_of_int (SchedulerStats.num_used_tokens stats)
       else SchedulerMetricsCollector.num_used_tokens c key)) \<and>
   (\<forall>key. SchedulerMetricsCollector.token_usage (log_stats c stats now) key =
      (if key = label_values (SchedulerMetricsCollector.labels c)
       then SchedulerStats.token_usage stats
       else SchedulerMetricsCollector.token_usage c key)) \<and>
   (\<forall>key. SchedulerMetricsCollector.gen_throughput (log_stats c stats now) key =
      (if key = label_values (SchedulerMetricsCollector.labels c)
       then SchedulerStats.gen_throughput stats
       else SchedulerMetricsCollector.gen_throughput c key)) \<and>
   (\<forall>key. SchedulerMetricsCollector.num_queue_reqs (log_stats c stats now) key =
      (if key = label_values (SchedulerMetricsCollector.labels c)
       then real_of_int (SchedulerStats.num_queue_reqs stats)
       else SchedulerMetricsCollector.num_queue_reqs c key)) \<and>
   (\<forall>key. SchedulerMetricsCollector.cache_hit_rate (log_stats c stats now) key =
      (if key = label_values (SchedulerMetricsCollector.labels c)
       then SchedulerStats.cache_hit_rate stats
       else SchedulerMetricsCollector.cache_hit_rate c key)) \<and>
   (\<forall>key. SchedulerMetricsCollector.spec_accept_length (log_stats c stats now) key =
      (if key = label_values (SchedulerMetricsCollector.labels c)
       then SchedulerStats.spec_accept_length stats
       else SchedulerMetricsCollector.spec_accept_length c key)) \<and>
   last_log_time (log_stats c stats now) = now \<and>
   histogram_request_queue_latency (log_stats c stats now) =
     histogram_request_queue_latency c \<and>
   SchedulerMetricsCollector.labels (log_stats c stats now) = SchedulerMetricsCollector.labels c \<and>
   SchedulerMetricsCollector.more (log_stats c stats now) = SchedulerMetricsCollector.more c"
  by (simp add: log_stats_def log_gauge_def gauge_set_def)

section \<open>The primitives of the request-lifecycle collector\<close>

text \<open>
  C8, as amended. The constructor declares exactly four counters (prompt tokens,
  generation tokens, cached tokens, completed requests) and exactly six histograms
  (time to first token, time per output token, inter-token latency, end-to-end latency,
  tokenization latency, detokenization latency), ten primitives with distinct names;
  every histogram is created with its own fixed, non-empty, strictly ascending ladder;
  the ladders of the three token timings start below one second and the end-to-end
  ladder ends at 1000 seconds.
\<close>

theorem tokenizer_declares_four_counters_six_histograms:
  "map metric_name (filter is_counter TokenizerMetricsCollector_declarations) =
     [''sglang:prompt_tokens_total'', ''sglang:generation_tokens_total'',
      ''sglang:cached_tokens_total'', ''sglang:num_requests_total''] \<and>
   map metric_name (filter is_histogram TokenizerMetricsCollector_declarations) =
     [''sglang:time_to_first_token_seconds'', ''sglang:time_per_output_token_seconds'',
      ''sglang:inter_token_latency_seconds'', ''sglang:e2e_request_latency_seconds'',
      ''sglang:tokenization_latency_seconds'', ''sglang:detokenization_latency_seconds''] \<and>
   length (filter is_counter TokenizerMetricsCollector_declarations) = 4 \<and>
   length (filter is_histogram TokenizerMetricsCollector_declarations) = 6 \<and>
   length TokenizerMetricsCollector_declarations = 10 \<and>
   distinct (map metric_name TokenizerMetricsCollector_declarations) \<and>
   list_all (\<lambda>d. ladder_ok (ladder_of d) \<and> sorted_wrt (<) (ladder_of d))
     (filter is_histogram TokenizerMetricsCollector_declarations) \<and>
   hd buckets_time_to_first_token < 1 \<and>
   hd buckets_time_per_output_token < 1 \<and>
   hd buckets_inter_token_latency < 1 \<and>
   last buckets_e2e_request_latency = 1000 \<and>
   histogram_time_to_first_token (TokenizerMetricsCollector_init ls) key =
     new_child buckets_time_to_first_token \<and>
   histogram_time_per_output_token (TokenizerMetricsCollector_init ls) key =
     new_child buckets_time_per_output_token \<and>
   histogram_inter_token_latency_seconds (TokenizerMetricsCollector_init ls) key =
     new_child buckets_inter_token_latency \<and>
   histogram_e2e_request_latency (TokenizerMetricsCollector_init ls) key =
     new_child buckets_e2e_request_latency \<and>
   histogram_tokenization_latency (TokenizerMetricsCollector_init ls) key =
     new_child buckets_tokenization_latency \<and>
   histogram_detokenization_latency (TokenizerMetricsCollector_init ls) key =
     new_child buckets_detokenization_latency"
proof -
  have l: "sorted_wrt (<) buckets_time_to_first_token"
    "sorted_wrt (<) buckets_time_per_output_token"
    "sorted_wrt (<) buckets_inter_token_latency"
    "sorted_wrt (<) buckets_e2e_request_latency"
    "sorted_wrt (<) buckets_tokenization_latency"
    "sorted_wrt (<) buckets_detokenization_latency"
    by (simp_all add: buckets_time_to_first_token_def buckets_time_per_output_token_def
        buckets_inter_token_latency_def buckets_e2e_request_latency_def
        buckets_tokenization_latency_def buckets_detokenization_latency_def)
  have ne: "buckets_time_to_first_token \<noteq> []" "buckets_time_per_output_token \<noteq> []"
    "buckets_inter_token_latency \<noteq> []" "buckets_e2e_request_latency \<noteq> []"
    "buckets_tokenization_latency \<noteq> []" "buckets_detokenization_latency \<noteq> []"
    by (simp_all add: buckets_time_to_first_token_def buckets_time_per_output_token_def
        buckets_inter_token_latency_def buckets_e2e_request_latency_def
        buckets_tokenization_latency_def buckets_detokenization_latency_def)
  have s: "sorted xs" if "sorted_wrt (<) xs" for xs :: "real list"
    using that by (rule strict_sorted_imp_sorted)
  have ladders: "list_all (\<lambda>d. ladder_ok (ladder_of d) \<and> sorted_wrt (<) (ladder_of d))
     (filter is_histogram TokenizerMetricsCollector_declarations)"
    using l ne by (simp add: TokenizerMetricsCollector_declarations_def ladder_ok_def s)
  have ends: "hd buckets_time_to_first_token < 1" "hd buckets_time_per_output_token < 1"
    "hd buckets_inter_token_latency < 1" "last buckets_e2e_request_latency = 1000"
    by (simp_all add: buckets_time_to_first_token_def buckets_time_per_output_token_def
        buckets_inter_token_latency_def buckets_e2e_request_latency_def)
  have names: "map metric_name (filter is_counter TokenizerMetricsCollector_declarations) =
     [''sglang:prompt_tokens_total'', ''sglang:generation_tokens_total'',
      ''sglang:cached_tokens_total'', ''sglang:num_requests_total'']"
    "map metric_name (filter is_histogram TokenizerMetricsCollector_declarations) =
     [''sglang:time_to_first_token_seconds'', ''sglang:time_per_output_token_seconds'',
      ''sglang:inter_token_latency_seconds'', ''sglang:e2e_request_latency_seconds'',
      ''sglang:tokenization_latency_seconds'', ''sglang:detokenization_latency_seconds'']"
    "length (filter is_counter TokenizerMetricsCollector_declarations) = 4"
    "length (filter is_histogram TokenizerMetricsCollector_declarations) = 6"
    "length TokenizerMetricsCollector_declarations = 10"
    "distinct (map metric_name TokenizerMetricsCollector_declarations)"
    by (simp_all add: TokenizerMetricsCollector_declarations_def)
  have init: "histogram_time_to_first_token (TokenizerMetricsCollector_init ls) key =
     new_child buckets_time_to_first_token"
   "histogram_time_per_output_token (TokenizerMetricsCollector_init ls) key =
     new_child buckets_time_per_output_token"
   "histogram_inter_token_latency_seconds (TokenizerMetricsCollector_init ls) key =
     new_child buckets_inter_token_latency"
   "histogram_e2e_request_latency (TokenizerMetricsCollector_init ls) key =
     new_child buckets_e2e_request_latency"
   "histogram_tokenization_latency (TokenizerMetricsCollector_init ls) key =
     new_child buckets_tokenization_latency"
   "histogram_detokenization_latency (TokenizerMetricsCollector_init ls) key =
     new_child buckets_detokenization_latency"
    by (simp_all add: TokenizerMetricsCollector_init_def Histogram_def)
  from names ladders ends init show ?thesis by (intro conjI)
qed

text \<open>The claim as stated fails: the histograms are not five.\<close>

theorem tokenizer_histogram_count_counterexample:
  "length (filter is_histogram TokenizerMetricsCollector_declarations) \<noteq> 5"
  by (simp add: TokenizerMetricsCollector_declarations_def)

section \<open>Multiprocess merge of the scheduler gauges\<close>

text \<open>
  C9. Each of the seven scheduler gauges is declared with the most-recent policy. Under
  that policy, with pairwise distinct write times, the merged read is the value of the
  copy written last, whatever the order in which the process-local copies are read; if
  process A wrote 5 at \<open>t1\<close> and process B wrote 9 at \<open>t2 > t1\<close>, the merged read is 9
  in both reading orders.
\<close>

theorem scheduler_gauges_merge_most_recent:
  "map mode_of (filter is_gauge SchedulerMetricsCollector_declarations) =
     replicate 7 ''mostrecent'' \<and>
   (distinct (map fst copies) \<and> (t, v) \<in> set copies \<and> (\<forall>p \<in> set copies. fst p \<le> t) \<longrightarrow>
      merged_read copies = Some v) \<and>
   (distinct (map fst copies) \<and> mset copies' = mset copies \<longrightarrow>
      merged_read copies' = merged_read copies) \<and>
   (t1 < t2 \<longrightarrow> merged_read [(t1, 5), (t2, 9)] = Some 9 \<and>
                merged_read [(t2, 9), (t1, 5)] = Some 9)"
proof (intro conjI impI)
  show "map mode_of (filter is_gauge SchedulerMetricsCollector_declarations) =
     replicate 7 ''mostrecent''"
    by (simp add: SchedulerMetricsCollector_declarations_def numeral_eq_Suc)
next
  assume "distinct (map fst copies) \<and> (t, v) \<in> set copies \<and> (\<forall>p \<in> set copies. fst p \<le> t)"
  then show "merged_read copies = Some v" using merged_read_latest by blast
next
  assume "distinct (map fst copies) \<and> mset copies' = mset copies"
  then show "merged_read copies' = merged_read copies" using merged_read_order by blast
next
  assume "t1 < t2"
  then show "merged_read [(t1, 5), (t2, 9)] = Some 9" by (simp add: merged_read_def)
next
  assume "t1 < t2"
  then show "merged_read [(t2, 9), (t1, 5)] = Some 9" by (simp add: merged_read_def)
qed

theorem scheduler_gauges_merge_most_recent_witness:
  "distinct (map fst ([(10, 5), (10.5, 9), (3, 1)] :: gauge_copy list)) \<and>
   (10.5, 9) \<in> set ([(10, 5), (10.5, 9), (3, 1)] :: gauge_copy list) \<and>
   list_all (\<lambda>p. fst p \<le> 10.5) ([(10, 5), (10.5, 9), (3, 1)] :: gauge_copy list) \<and>
   merged_read [(10, 5), (10.5, 9), (3, 1)] = Some 9 \<and>
   mset ([(3, 1), (10.5, 9), (10, 5)] :: gauge_copy list) = mset [(10, 5), (10.5, 9), (3, 1)] \<and>
   merged_read [(3, 1), (10.5, 9), (10, 5)] = merged_read [(10, 5), (10.5, 9), (3, 1)] \<and>
   (10 :: real) < 10.5 \<and>
   merged_read [(10, 5), (10.5, 9)] = Some 9 \<and> merged_read [(10.5, 9), (10, 5)] = Some 9"
  using scheduler_gauges_merge_most_recent
    [of "[(10, 5), (10.5, 9), (3, 1)]" "10.5" 9 "[(3, 1), (10.5, 9), (10, 5)]" 10 "10.5"]
  by (simp add: merged_read_def)

end
